theory Spec2Isabelle
  imports Main
begin

section \<open>The filter compiler of pg-helpers (translateFilter)\<close>

text \<open>
  A shallow embedding of the filter compiler: \<open>translateCondition\<close>, \<open>translateNewDSL\<close>,
  \<open>translateLegacyFilter\<close>, \<open>translateFilter\<close>, \<open>toSnakeCase\<close> and \<open>toAllowedColumn\<close>.
  Inputs are modelled at the types the TypeScript source declares for them
  (\<open>FilterCondition\<close>, \<open>FilterDSL\<close>, \<open>Record<string, unknown>\<close>); a thrown exception is
  the \<open>Inl\<close> branch of the result.

  The source casts its argument to these types without a check. The model covers the
  well-typed inputs only; what that means is said at each type below. An input outside
  them (for instance \<open>{conditions: null}\<close> or \<open>{conditions: [null]}\<close>, on which the
  source throws a \<open>TypeError\<close>) has no counterpart in the model, and every statement
  below is a statement about well-typed inputs.
\<close>

subsection \<open>JavaScript values and errors\<close>

text \<open>
  A value of TypeScript type \<open>unknown\<close>. The compiler never inspects such a value beyond
  comparing it with \<open>undefined\<close> and \<open>null\<close>; it is passed on as a query parameter.
\<close>

datatype jsval =
    JUndefined
  | JNull
  | JBool bool
  | JNum int
  | JStr string
  | JArr "jsval list"
  | JObj "(string \<times> jsval) list"

text \<open>
  The two kinds of exception the compiler throws, each with its message:
  \<open>FilterValidationError\<close> (a subclass of \<open>Error\<close> with \<open>statusCode = 400\<close>) and a plain
  \<open>Error\<close>, which has no \<open>statusCode\<close> property.
\<close>

datatype error =
    FilterValidationError string
  | Error string

fun statusCode :: "error \<Rightarrow> nat option" where
  "statusCode (FilterValidationError msg) = Some 400"
| "statusCode (Error msg) = None"

fun isFilterValidationError :: "error \<Rightarrow> bool" where
  "isFilterValidationError (FilterValidationError msg) = True"
| "isFilterValidationError (Error msg) = False"

subsection \<open>Strings\<close>

text \<open>The characters \<open>"\<close> and \<open>'\<close>, which occur in messages and in the SQL text.\<close>

definition dquote :: string where
  "dquote = [CHR 0x22]"

definition squote :: string where
  "squote = [CHR 0x27]"

text \<open>
  Number-to-string conversion of a template literal, for a non-negative integer. The
  source converts a JavaScript number; the decimal digits below are what it yields for
  every integer up to \<open>2^53\<close> (from \<open>10^21\<close> on JavaScript uses exponent notation).
\<close>

fun string_of_nat :: "nat \<Rightarrow> string" where
  "string_of_nat n =
     (if n < 10 then [char_of (48 + n)]
      else string_of_nat (n div 10) @ [char_of (48 + n mod 10)])"

declare string_of_nat.simps [simp del]

text \<open>\<open>Array.prototype.join\<close> on an array of strings.\<close>

fun join :: "string \<Rightarrow> string list \<Rightarrow> string" where
  "join sep [] = []"
| "join sep [x] = x"
| "join sep (x # y # ys) = x @ sep @ join sep (y # ys)"

text \<open>
  \<open>String.prototype.toUpperCase\<close> on ASCII text (the source applies it to
  \<open>"and"\<close> and \<open>"or"\<close> only).
\<close>

definition toUpperCase :: "string \<Rightarrow> string" where
  "toUpperCase s =
     map (\<lambda>c. if 97 \<le> (of_char c :: nat) \<and> (of_char c :: nat) \<le> 122
              then char_of ((of_char c :: nat) - 32) else c) s"

subsection \<open>The new filter DSL: types and the field allow-list\<close>

text \<open>
  \<open>interface FilterCondition\<close>: an object whose \<open>field\<close> and \<open>op\<close> are strings and
  whose \<open>alias\<close> is a string or absent (\<open>None\<close>).
  \<^item> \<open>value\<close> is any value; an absent one is \<open>JUndefined\<close>.
  \<^item> \<open>values\<close> is \<open>Some\<close> of the elements when it is an array, and \<open>None\<close> when it
    is absent or anything else (the source tests \<open>Array.isArray\<close>).
  \<^item> \<open>range\<close> is \<open>Some (low, high)\<close> when it is an object, an absent \<open>low\<close> or
    \<open>high\<close> being \<open>JUndefined\<close>, and \<open>None\<close> when it is absent or not an object
    (the source then finds no \<open>low\<close> to read).
\<close>

record FilterCondition =
  cond_field :: string
  cond_op :: string
  cond_value :: jsval
  cond_values :: "jsval list option"
  cond_range :: "(jsval \<times> jsval) option"
  cond_alias :: "string option"

text \<open>
  \<open>interface FilterDSL\<close>: \<open>conditions\<close> is an array of condition objects.
  \<open>combine\<close> is any string, which the source checks against \<open>"and"\<close> and \<open>"or"\<close>
  itself, or \<open>None\<close> when the property is absent, \<open>undefined\<close> or \<open>null\<close>: the source
  reads it with \<open>??\<close>, so that \<open>combine: null\<close> is treated as \<open>"and"\<close>.
\<close>

record FilterDSL =
  conditions :: "FilterCondition list"
  combine :: "string option"

record FieldDef =
  tableAlias :: string
  column :: string
  allowedOps :: "string list"

definition TEXT_OPS :: "string list" where
  "TEXT_OPS = [''eq'', ''ne'', ''in'', ''notIn'', ''isNull'', ''isNotNull'']"

definition TEMPORAL_OPS :: "string list" where
  "TEMPORAL_OPS =
     [''eq'', ''ne'', ''gt'', ''gte'', ''lt'', ''lte'',
      ''between'', ''notBetween'', ''in'', ''notIn'', ''isNull'', ''isNotNull'']"

definition FIELD_DEFS :: "(string \<times> FieldDef) list" where
  "FIELD_DEFS =
     [(''chunkIndex'',       \<lparr>tableAlias = ''c'', column = ''chunk_index'',       allowedOps = TEMPORAL_OPS\<rparr>),
      (''docType'',          \<lparr>tableAlias = ''c'', column = ''doc_type'',          allowedOps = TEXT_OPS\<rparr>),
      (''repoId'',           \<lparr>tableAlias = ''c'', column = ''repo_id'',           allowedOps = TEXT_OPS\<rparr>),
      (''repoUrl'',          \<lparr>tableAlias = ''c'', column = ''repo_url'',          allowedOps = TEXT_OPS\<rparr>),
      (''path'',             \<lparr>tableAlias = ''c'', column = ''path'',              allowedOps = TEXT_OPS\<rparr>),
      (''lang'',             \<lparr>tableAlias = ''c'', column = ''lang'',              allowedOps = TEXT_OPS\<rparr>),
      (''itemUrl'',          \<lparr>tableAlias = ''c'', column = ''item_url'',          allowedOps = TEXT_OPS\<rparr>),
      (''enrichmentStatus'', \<lparr>tableAlias = ''c'', column = ''enrichment_status'', allowedOps = TEXT_OPS\<rparr>),
      (''createdAt'',        \<lparr>tableAlias = ''c'', column = ''created_at'',        allowedOps = TEMPORAL_OPS\<rparr>),
      (''ingestedAt'',       \<lparr>tableAlias = ''d'', column = ''ingested_at'',       allowedOps = TEMPORAL_OPS\<rparr>),
      (''updatedAt'',        \<lparr>tableAlias = ''d'', column = ''updated_at'',        allowedOps = TEMPORAL_OPS\<rparr>),
      (''lastSeen'',         \<lparr>tableAlias = ''d'', column = ''last_seen'',         allowedOps = TEMPORAL_OPS\<rparr>),
      (''mimeType'',         \<lparr>tableAlias = ''d'', column = ''mime_type'',         allowedOps = TEXT_OPS\<rparr>)]"

text \<open>\<open>FIELD_DEFS.get(name)\<close>: \<open>None\<close> is JavaScript's \<open>undefined\<close>.\<close>

definition FIELD_DEFS_get :: "string \<Rightarrow> FieldDef option" where
  "FIELD_DEFS_get name = map_of FIELD_DEFS name"

subsection \<open>translateCondition\<close>

record sql_result =
  sql :: string
  params :: "jsval list"

record cond_result = sql_result +
  nextIndex :: nat

text \<open>The placeholder \<open>$N\<close> of a positional parameter.\<close>

definition placeholder :: "nat \<Rightarrow> string" where
  "placeholder n = ''$'' @ string_of_nat n"

text \<open>A \<open>between\<close> range is usable when it is present and neither bound is \<open>undefined\<close>.\<close>

fun range_missing :: "(jsval \<times> jsval) option \<Rightarrow> bool" where
  "range_missing None = True"
| "range_missing (Some (low, high)) = (low = JUndefined \<or> high = JUndefined)"

definition translateCondition :: "FilterCondition \<Rightarrow> nat \<Rightarrow> error + cond_result" where
  "translateCondition cond paramIndex =
     (case FIELD_DEFS_get (cond_field cond) of
        None \<Rightarrow> Inl (FilterValidationError (''Unknown filter field: '' @ cond_field cond))
      | Some fieldDef \<Rightarrow>
          let expectedAlias = tableAlias fieldDef in
          if cond_alias cond \<noteq> None \<and> cond_alias cond \<noteq> Some expectedAlias then
            Inl (FilterValidationError
              (''Field '' @ dquote @ cond_field cond @ dquote @ '' requires alias '' @ dquote
                @ expectedAlias @ dquote @ '', got '' @ dquote @ the (cond_alias cond) @ dquote))
          else if cond_op cond \<notin> set (allowedOps fieldDef) then
            Inl (FilterValidationError
              (''Operator '' @ dquote @ cond_op cond @ dquote @ '' not allowed for field ''
                @ dquote @ cond_field cond @ dquote))
          else
            let col = expectedAlias @ ''.'' @ column fieldDef;
                isPath = (column fieldDef = ''path'');
                p = placeholder paramIndex
            in
            if cond_op cond = ''eq'' then
              (if isPath then
                 Inr \<lparr>sql = col @ '' LIKE '' @ p @ '' || '' @ squote @ ''%'' @ squote,
                      params = [cond_value cond], nextIndex = paramIndex + 1\<rparr>
               else
                 Inr \<lparr>sql = col @ '' = '' @ p,
                      params = [cond_value cond], nextIndex = paramIndex + 1\<rparr>)
            else if cond_op cond = ''ne'' then
              (if isPath then
                 Inr \<lparr>sql = col @ '' NOT LIKE '' @ p @ '' || '' @ squote @ ''%'' @ squote,
                      params = [cond_value cond], nextIndex = paramIndex + 1\<rparr>
               else
                 Inr \<lparr>sql = col @ '' != '' @ p,
                      params = [cond_value cond], nextIndex = paramIndex + 1\<rparr>)
            else if cond_op cond = ''gt'' then
              Inr \<lparr>sql = col @ '' > '' @ p,
                   params = [cond_value cond], nextIndex = paramIndex + 1\<rparr>
            else if cond_op cond = ''gte'' then
              Inr \<lparr>sql = col @ '' >= '' @ p,
                   params = [cond_value cond], nextIndex = paramIndex + 1\<rparr>
            else if cond_op cond = ''lt'' then
              Inr \<lparr>sql = col @ '' < '' @ p,
                   params = [cond_value cond], nextIndex = paramIndex + 1\<rparr>
            else if cond_op cond = ''lte'' then
              Inr \<lparr>sql = col @ '' <= '' @ p,
                   params = [cond_value cond], nextIndex = paramIndex + 1\<rparr>
            else if cond_op cond = ''in'' then
              (case cond_values cond of
                 None \<Rightarrow>
                   Inl (FilterValidationError
                     (''Operator '' @ dquote @ ''in'' @ dquote
                       @ '' requires non-empty values array for field ''
                       @ dquote @ cond_field cond @ dquote))
               | Some vs \<Rightarrow>
                   if length vs = 0 then
                     Inl (FilterValidationError
                       (''Operator '' @ dquote @ ''in'' @ dquote
                         @ '' requires non-empty values array for field ''
                         @ dquote @ cond_field cond @ dquote))
                   else
                     let placeholders =
                           join '', '' (map (\<lambda>i. placeholder (paramIndex + i)) [0..<length vs])
                     in Inr \<lparr>sql = col @ '' IN ('' @ placeholders @ '')'',
                             params = vs, nextIndex = paramIndex + length vs\<rparr>)
            else if cond_op cond = ''notIn'' then
              (case cond_values cond of
                 None \<Rightarrow>
                   Inl (FilterValidationError
                     (''Operator '' @ dquote @ ''notIn'' @ dquote
                       @ '' requires non-empty values array for field ''
                       @ dquote @ cond_field cond @ dquote))
               | Some vs \<Rightarrow>
                   if length vs = 0 then
                     Inl (FilterValidationError
                       (''Operator '' @ dquote @ ''notIn'' @ dquote
                         @ '' requires non-empty values array for field ''
                         @ dquote @ cond_field cond @ dquote))
                   else
                     let placeholders =
                           join '', '' (map (\<lambda>i. placeholder (paramIndex + i)) [0..<length vs])
                     in Inr \<lparr>sql = col @ '' NOT IN ('' @ placeholders @ '')'',
                             params = vs, nextIndex = paramIndex + length vs\<rparr>)
            else if cond_op cond = ''between'' then
              (if range_missing (cond_range cond) then
                 Inl (FilterValidationError
                   (''Operator '' @ dquote @ ''between'' @ dquote
                     @ '' requires range.low and range.high for field ''
                     @ dquote @ cond_field cond @ dquote))
               else
                 Inr \<lparr>sql = col @ '' >= '' @ p @ '' AND '' @ col @ '' <= ''
                              @ placeholder (paramIndex + 1),
                      params = [fst (the (cond_range cond)), snd (the (cond_range cond))],
                      nextIndex = paramIndex + 2\<rparr>)
            else if cond_op cond = ''notBetween'' then
              (if range_missing (cond_range cond) then
                 Inl (FilterValidationError
                   (''Operator '' @ dquote @ ''notBetween'' @ dquote
                     @ '' requires range.low and range.high for field ''
                     @ dquote @ cond_field cond @ dquote))
               else
                 Inr \<lparr>sql = ''('' @ col @ '' < '' @ p @ '' OR '' @ col @ '' > ''
                              @ placeholder (paramIndex + 1) @ '')'',
                      params = [fst (the (cond_range cond)), snd (the (cond_range cond))],
                      nextIndex = paramIndex + 2\<rparr>)
            else if cond_op cond = ''isNull'' then
              Inr \<lparr>sql = col @ '' IS NULL'', params = [], nextIndex = paramIndex\<rparr>
            else if cond_op cond = ''isNotNull'' then
              Inr \<lparr>sql = col @ '' IS NOT NULL'', params = [], nextIndex = paramIndex\<rparr>
            else
              Inl (FilterValidationError (''Unknown operator: '' @ cond_op cond)))"

subsection \<open>translateNewDSL\<close>

text \<open>
  The \<open>for\<close> loop over \<open>dsl.conditions\<close>, with its three accumulators
  \<open>sqlFragments\<close>, \<open>params\<close> and \<open>paramIndex\<close>; a throwing condition ends the loop.

  \<open>paramIndexOffset\<close> and \<open>paramIndex\<close> are JavaScript numbers. The model takes a
  non-negative integer offset and computes with natural numbers. Its sums and its
  placeholders are those of the source as long as no index exceeds \<open>2^53\<close>: up to there
  every integer is a number, addition is exact and the conversion to a string gives
  the decimal digits. Beyond, JavaScript's addition rounds (\<open>1 + 2^53\<close> is \<open>2^53\<close>),
  and the model does not follow the source; negative and fractional offsets are not
  modelled either. The statements about parameter indices carry this bound.
\<close>

fun translateConditions ::
  "FilterCondition list \<Rightarrow> string list \<Rightarrow> jsval list \<Rightarrow> nat
    \<Rightarrow> error + (string list \<times> jsval list \<times> nat)" where
  "translateConditions [] sqlFragments ps paramIndex = Inr (sqlFragments, ps, paramIndex)"
| "translateConditions (cond # conds) sqlFragments ps paramIndex =
     (case translateCondition cond paramIndex of
        Inl e \<Rightarrow> Inl e
      | Inr result \<Rightarrow>
          translateConditions conds (sqlFragments @ [sql result]) (ps @ params result)
            (nextIndex result))"

definition translateNewDSL :: "FilterDSL \<Rightarrow> nat \<Rightarrow> error + sql_result" where
  "translateNewDSL dsl paramIndexOffset =
     (let rawCombine = (case combine dsl of None \<Rightarrow> ''and'' | Some s \<Rightarrow> s) in
      if rawCombine \<noteq> ''and'' \<and> rawCombine \<noteq> ''or'' then
        Inl (FilterValidationError
          (''Invalid combine operator '' @ dquote @ rawCombine @ dquote
            @ ''. Expected '' @ dquote @ ''and'' @ dquote @ '' or '' @ dquote @ ''or'' @ dquote @ ''.''))
      else
        let combineUpper = toUpperCase rawCombine in
        case translateConditions (conditions dsl) [] [] (1 + paramIndexOffset) of
          Inl e \<Rightarrow> Inl e
        | Inr (sqlFragments, ps, paramIndex) \<Rightarrow>
            if length sqlFragments = 0 then Inr \<lparr>sql = '''', params = []\<rparr>
            else
              let joined =
                    (if length sqlFragments = 1 then hd sqlFragments
                     else ''('' @ join ('' '' @ combineUpper @ '' '') sqlFragments @ '')'')
              in Inr \<lparr>sql = '' AND '' @ joined, params = ps\<rparr>)"

subsection \<open>The legacy filter\<close>

text \<open>
  \<open>toSnakeCase\<close>: every \<open>[A-Z]\<close> is replaced by its lower-case letter, preceded by
  \<open>_\<close> unless it stands at offset 0.
\<close>

definition isUpperAZ :: "char \<Rightarrow> bool" where
  "isUpperAZ c = (65 \<le> (of_char c :: nat) \<and> (of_char c :: nat) \<le> 90)"

definition toLowerCase_char :: "char \<Rightarrow> char" where
  "toLowerCase_char c = (if isUpperAZ c then char_of ((of_char c :: nat) + 32) else c)"

fun toSnakeCase_at :: "nat \<Rightarrow> string \<Rightarrow> string" where
  "toSnakeCase_at offset [] = []"
| "toSnakeCase_at offset (c # cs) =
     (if isUpperAZ c then
        (if offset = 0 then [toLowerCase_char c] else ''_'' @ [toLowerCase_char c])
      else [c]) @ toSnakeCase_at (offset + 1) cs"

definition toSnakeCase :: "string \<Rightarrow> string" where
  "toSnakeCase str = toSnakeCase_at 0 str"

definition ALLOWED_FILTER_COLUMNS :: "string list" where
  "ALLOWED_FILTER_COLUMNS =
     [''chunk_index'', ''doc_type'', ''repo_id'', ''repo_url'', ''path'', ''lang'',
      ''item_url'', ''enrichment_status'']"

text \<open>The regular expression \<open>/^[a-z_][a-z0-9_]*$/\<close>.\<close>

definition isLowerOrUnderscore :: "char \<Rightarrow> bool" where
  "isLowerOrUnderscore c =
     ((97 \<le> (of_char c :: nat) \<and> (of_char c :: nat) \<le> 122) \<or> c = CHR ''_'')"

definition isDigit :: "char \<Rightarrow> bool" where
  "isDigit c = (48 \<le> (of_char c :: nat) \<and> (of_char c :: nat) \<le> 57)"

fun isColumnName :: "string \<Rightarrow> bool" where
  "isColumnName [] = False"
| "isColumnName (c # cs) =
     (isLowerOrUnderscore c \<and> list_all (\<lambda>x. isLowerOrUnderscore x \<or> isDigit x) cs)"

definition toAllowedColumn :: "string \<Rightarrow> error + string" where
  "toAllowedColumn k =
     (let col = toSnakeCase k in
      if \<not> isColumnName col \<or> col \<notin> set ALLOWED_FILTER_COLUMNS then
        Inl (Error (''Unsupported filter key: '' @ k))
      else Inr col)"

text \<open>
  An element of a \<open>must\<close> or \<open>must_not\<close> array,
  \<open>{ key: string; match: { value?: unknown; text?: unknown } }\<close>.
\<close>

record MustCond =
  key :: string
  match_value :: jsval
  match_text :: jsval

text \<open>The operator \<open>??\<close>.\<close>

definition nullish_coalesce :: "jsval \<Rightarrow> jsval \<Rightarrow> jsval" where
  "nullish_coalesce a b = (if a = JUndefined \<or> a = JNull then b else a)"

text \<open>
  One own property of a legacy filter object, as \<open>Object.entries\<close> yields it: the
  property \<open>must\<close> or \<open>must_not\<close> with the array its value is cast to, or any other
  key with its value.
\<close>

datatype legacy_prop =
    Must "MustCond list"
  | MustNot "MustCond list"
  | KeyValue string jsval

text \<open>
  The accumulators of \<open>translateLegacyFilter\<close>: \<open>conditions\<close>, \<open>params\<close> and
  \<open>paramIndex\<close>.
\<close>

type_synonym legacy_acc = "string list \<times> jsval list \<times> nat"

fun translateMustConds ::
  "string \<Rightarrow> string \<Rightarrow> string \<Rightarrow> MustCond list \<Rightarrow> legacy_acc \<Rightarrow> error + legacy_acc" where
  "translateMustConds likeOp eqOp tblAlias [] acc = Inr acc"
| "translateMustConds likeOp eqOp tblAlias (cond # conds) (conds_sql, ps, paramIndex) =
     (case toAllowedColumn (key cond) of
        Inl e \<Rightarrow> Inl e
      | Inr col \<Rightarrow>
          let filterValue = nullish_coalesce (match_value cond) (match_text cond);
              fragment =
                (if col = ''path'' then
                   tblAlias @ ''.'' @ col @ likeOp @ placeholder paramIndex
                     @ '' || '' @ squote @ ''%'' @ squote
                 else tblAlias @ ''.'' @ col @ eqOp @ placeholder paramIndex)
          in translateMustConds likeOp eqOp tblAlias conds
               (conds_sql @ [fragment], ps @ [filterValue], paramIndex + 1))"

fun translateLegacyProps ::
  "string \<Rightarrow> legacy_prop list \<Rightarrow> legacy_acc \<Rightarrow> error + legacy_acc" where
  "translateLegacyProps tblAlias [] acc = Inr acc"
| "translateLegacyProps tblAlias (Must mustConds # props) acc =
     (case translateMustConds '' LIKE '' '' = '' tblAlias mustConds acc of
        Inl e \<Rightarrow> Inl e
      | Inr acc' \<Rightarrow> translateLegacyProps tblAlias props acc')"
| "translateLegacyProps tblAlias (MustNot mustNotConds # props) acc =
     (case translateMustConds '' NOT LIKE '' '' != '' tblAlias mustNotConds acc of
        Inl e \<Rightarrow> Inl e
      | Inr acc' \<Rightarrow> translateLegacyProps tblAlias props acc')"
| "translateLegacyProps tblAlias (KeyValue k v # props) (conds_sql, ps, paramIndex) =
     (case toAllowedColumn k of
        Inl e \<Rightarrow> Inl e
      | Inr col \<Rightarrow>
          let fragment =
                (if col = ''path'' then
                   tblAlias @ ''.'' @ col @ '' LIKE '' @ placeholder paramIndex
                     @ '' || '' @ squote @ ''%'' @ squote
                 else tblAlias @ ''.'' @ col @ '' = '' @ placeholder paramIndex)
          in translateLegacyProps tblAlias props
               (conds_sql @ [fragment], ps @ [v], paramIndex + 1))"

definition translateLegacyFilter ::
  "legacy_prop list \<Rightarrow> nat \<Rightarrow> string \<Rightarrow> error + sql_result" where
  "translateLegacyFilter props paramIndexOffset tblAlias =
     (case translateLegacyProps tblAlias props ([], [], 1 + paramIndexOffset) of
        Inl e \<Rightarrow> Inl e
      | Inr (conds_sql, ps, paramIndex) \<Rightarrow>
          Inr \<lparr>sql = (if length conds_sql > 0 then '' AND '' @ join '' AND '' conds_sql else ''''),
               params = ps\<rparr>)"

subsection \<open>translateFilter\<close>

text \<open>
  The filter argument, of type \<open>Record<string, unknown> | FilterDSL\<close>: an object that
  has the property \<open>conditions\<close> is given by its \<open>FilterDSL\<close> view together with
  \<open>Object.keys\<close> of the object, an object without it by its properties, in the order of
  \<open>Object.entries\<close>. An omitted argument (\<open>undefined\<close>) is \<open>None\<close>.

  The \<open>FilterDSL\<close> view exists for a well-typed object only: \<open>conditions\<close> is an
  array, each element is an object with strings \<open>field\<close> and \<open>op\<close> and a string or
  absent \<open>alias\<close>, and \<open>combine\<close> is a string, \<open>null\<close> or absent. The run-time
  argument is any JSON object, cast without a check; on an object whose \<open>conditions\<close>
  is not iterable or has a \<open>null\<close> element the source throws a \<open>TypeError\<close>, and such
  objects are outside the model. Every DSL object that the source compiles is well-typed
  in this sense, up to an empty string for \<open>conditions\<close>, which behaves as the empty array.
\<close>

datatype filter_object =
    DSLObject FilterDSL "string list"
  | LegacyObject "legacy_prop list"

definition dslKeys :: "string list" where
  "dslKeys = [''conditions'', ''combine'']"

fun translateFilter :: "filter_object option \<Rightarrow> nat \<Rightarrow> string \<Rightarrow> error + sql_result" where
  "translateFilter None paramIndexOffset tblAlias = Inr \<lparr>sql = '''', params = []\<rparr>"
| "translateFilter (Some (DSLObject dsl object_keys)) paramIndexOffset tblAlias =
     (let extraKeys = filter (\<lambda>k. k \<notin> set dslKeys) object_keys in
      if length extraKeys > 0 then
        Inl (FilterValidationError
          (''Mixed filter format detected: DSL key '' @ dquote @ ''conditions'' @ dquote
            @ '' cannot be combined with legacy keys: '' @ join '', '' extraKeys @ ''.''))
      else translateNewDSL dsl paramIndexOffset)"
| "translateFilter (Some (LegacyObject props)) paramIndexOffset tblAlias =
     translateLegacyFilter props paramIndexOffset tblAlias"


section \<open>Specification-level notions\<close>

subsection \<open>Arity, parameters and parameter indices of DSL conditions\<close>

text \<open>
  The arity of a condition is the number of query parameters its operator takes: the
  number of listed values for \<open>in\<close> and \<open>notIn\<close>, two for \<open>between\<close> and
  \<open>notBetween\<close>, none for \<open>isNull\<close> and \<open>isNotNull\<close>, one for the comparisons.
\<close>

definition cond_arity :: "FilterCondition \<Rightarrow> nat" where
  "cond_arity c =
     (if cond_op c \<in> {''in'', ''notIn''} then
        (case cond_values c of None \<Rightarrow> 0 | Some vs \<Rightarrow> length vs)
      else if cond_op c \<in> {''between'', ''notBetween''} then 2
      else if cond_op c \<in> {''isNull'', ''isNotNull''} then 0
      else 1)"

text \<open>The values a condition contributes to the parameter list, in order.\<close>

definition cond_params :: "FilterCondition \<Rightarrow> jsval list" where
  "cond_params c =
     (if cond_op c \<in> {''in'', ''notIn''} then
        (case cond_values c of None \<Rightarrow> [] | Some vs \<Rightarrow> vs)
      else if cond_op c \<in> {''between'', ''notBetween''} then
        (case cond_range c of None \<Rightarrow> [] | Some (low, high) \<Rightarrow> [low, high])
      else if cond_op c \<in> {''isNull'', ''isNotNull''} then []
      else [cond_value c])"

text \<open>
  The first parameter index of each condition of a list, when the first condition
  starts at \<open>n\<close> and every condition advances the index by its arity.
\<close>

fun param_indices :: "nat \<Rightarrow> FilterCondition list \<Rightarrow> nat list" where
  "param_indices n [] = []"
| "param_indices n (c # cs) = n # param_indices (n + cond_arity c) cs"

text \<open>The SQL text \<open>translateCondition\<close> returns for a condition at a parameter index.\<close>

definition fragment_of :: "FilterCondition \<Rightarrow> nat \<Rightarrow> string" where
  "fragment_of c i = (case translateCondition c i of Inl e \<Rightarrow> [] | Inr r \<Rightarrow> sql r)"

text \<open>
  The condition compiles at index \<open>i\<close>, yields as many parameters as its arity and
  advances the index by its arity.
\<close>

definition compiles_at :: "FilterCondition \<Rightarrow> nat \<Rightarrow> bool" where
  "compiles_at c i =
     (case translateCondition c i of
        Inl e \<Rightarrow> False
      | Inr r \<Rightarrow> length (params r) = cond_arity c \<and> nextIndex r = i + cond_arity c)"


text \<open>The text that joins the fragments of a DSL filter whose \<open>combine\<close> is valid.\<close>

definition combine_separator :: "FilterDSL \<Rightarrow> string" where
  "combine_separator dsl = (if combine dsl = Some ''or'' then '' OR '' else '' AND '')"


text \<open>
  The filter \<open>{conditions: [{field: "docType", op: "eq", value: "code"},
  {field: "lang", op: "eq", value: "ts"}], combine: "or"}\<close>.
\<close>

definition example_dsl :: FilterDSL where
  "example_dsl =
     \<lparr>conditions =
        [\<lparr>cond_field = ''docType'', cond_op = ''eq'', cond_value = JStr ''code'',
          cond_values = None, cond_range = None, cond_alias = None\<rparr>,
         \<lparr>cond_field = ''lang'', cond_op = ''eq'', cond_value = JStr ''ts'',
          cond_values = None, cond_range = None, cond_alias = None\<rparr>],
      combine = Some ''or''\<rparr>"


subsection \<open>Rejected DSL filters\<close>

text \<open>The operators of the DSL.\<close>

definition ALL_OPERATORS :: "string list" where
  "ALL_OPERATORS =
     [''eq'', ''ne'', ''gt'', ''gte'', ''lt'', ''lte'', ''in'', ''notIn'',
      ''between'', ''notBetween'', ''isNull'', ''isNotNull'']"

text \<open>
  The faults of a condition that the specification lists: an unknown field, an operator
  outside the field's allowed set, an alias other than the field's fixed alias, an empty
  \<open>in\<close>/\<open>notIn\<close> values list, a \<open>between\<close>/\<open>notBetween\<close> condition that lacks
  \<open>range.low\<close> or \<open>range.high\<close>, an unknown operator.
\<close>

definition listed_condition_fault :: "FilterCondition \<Rightarrow> bool" where
  "listed_condition_fault c =
     (case FIELD_DEFS_get (cond_field c) of
        None \<Rightarrow> True
      | Some fd \<Rightarrow>
          cond_op c \<notin> set (allowedOps fd)
        \<or> (cond_alias c \<noteq> None \<and> cond_alias c \<noteq> Some (tableAlias fd))
        \<or> (cond_op c \<in> {''in'', ''notIn''} \<and> cond_values c = Some [])
        \<or> (cond_op c \<in> {''between'', ''notBetween''} \<and> range_missing (cond_range c))
        \<or> cond_op c \<notin> set ALL_OPERATORS)"

text \<open>
  A \<open>combine\<close> value other than \<open>"and"\<close> and \<open>"or"\<close>; an absent or \<open>null\<close>
  \<open>combine\<close> is none.
\<close>

definition invalid_combine :: "FilterDSL \<Rightarrow> bool" where
  "invalid_combine dsl =
     (case combine dsl of None \<Rightarrow> False | Some s \<Rightarrow> s \<noteq> ''and'' \<and> s \<noteq> ''or'')"

definition listed_fault :: "FilterDSL \<Rightarrow> bool" where
  "listed_fault dsl =
     (invalid_combine dsl \<or> list_ex listed_condition_fault (conditions dsl))"

text \<open>An \<open>in\<close>/\<open>notIn\<close> condition whose \<open>values\<close> is absent or not an array.\<close>

definition values_absent :: "FilterCondition \<Rightarrow> bool" where
  "values_absent c = (cond_op c \<in> {''in'', ''notIn''} \<and> cond_values c = None)"

text \<open>The listed faults, together with an \<open>in\<close>/\<open>notIn\<close> condition without a values array.\<close>

definition dsl_fault :: "FilterDSL \<Rightarrow> bool" where
  "dsl_fault dsl =
     (invalid_combine dsl
      \<or> list_ex (\<lambda>c. listed_condition_fault c \<or> values_absent c) (conditions dsl))"

text \<open>The object has a key besides \<open>conditions\<close> and \<open>combine\<close>.\<close>

definition mixed_keys :: "string list \<Rightarrow> bool" where
  "mixed_keys object_keys = list_ex (\<lambda>k. k \<notin> set dslKeys) object_keys"

text \<open>The call throws a \<open>FilterValidationError\<close>, whose \<open>statusCode\<close> is 400.\<close>

definition raises400 :: "error + sql_result \<Rightarrow> bool" where
  "raises400 res =
     (case res of
        Inl e \<Rightarrow> isFilterValidationError e \<and> statusCode e = Some 400
      | Inr r \<Rightarrow> False)"

text \<open>The filter \<open>{conditions: [{field: "lang", op: "in"}]}\<close>.\<close>

definition missing_values_dsl :: FilterDSL where
  "missing_values_dsl =
     \<lparr>conditions =
        [\<lparr>cond_field = ''lang'', cond_op = ''in'', cond_value = JUndefined,
          cond_values = None, cond_range = None, cond_alias = None\<rparr>],
      combine = None\<rparr>"

text \<open>
  The filter \<open>{conditions: [{field: "docType", op: "eq", value: "code"},
  {field: "ingestedAt", op: "gte", value: "2025-01-01", alias: "c"}], combine: "and"}\<close>,
  whose second condition names the wrong alias.
\<close>

definition wrong_alias_dsl :: FilterDSL where
  "wrong_alias_dsl =
     \<lparr>conditions =
        [\<lparr>cond_field = ''docType'', cond_op = ''eq'', cond_value = JStr ''code'',
          cond_values = None, cond_range = None, cond_alias = None\<rparr>,
         \<lparr>cond_field = ''ingestedAt'', cond_op = ''gte'', cond_value = JStr ''2025-01-01'',
          cond_values = None, cond_range = None, cond_alias = Some ''c''\<rparr>],
      combine = Some ''and''\<rparr>"

subsection \<open>Structure, values and the SQL allow-list\<close>

text \<open>The suffix \<open> || '%'\<close> of a prefix match.\<close>

definition like_suffix :: string where
  "like_suffix = '' || '' @ squote @ ''%'' @ squote"

text \<open>The fixed operator and punctuation texts of the emitted SQL.\<close>

definition SQL_OPERATORS :: "string list" where
  "SQL_OPERATORS =
     ['' AND '', '' OR '', ''('', '')'', '' = '', '' != '', '' > '', '' >= '', '' < '', '' <= '',
      '' LIKE '', '' NOT LIKE '', like_suffix, '' IN ('', '' NOT IN ('', '', '',
      '' IS NULL'', '' IS NOT NULL'']"

text \<open>
  The qualified columns: those of \<open>FIELD_DEFS\<close>, each under its own alias \<open>c\<close> or
  \<open>d\<close>, and those of \<open>ALLOWED_FILTER_COLUMNS\<close> under the \<open>tableAlias\<close> argument of
  the legacy path (by default \<open>"c"\<close>).
\<close>

definition qualified_columns :: "string \<Rightarrow> string list" where
  "qualified_columns tblAlias =
     map (\<lambda>(name, fd). tableAlias fd @ ''.'' @ column fd) FIELD_DEFS
     @ map (\<lambda>col. tblAlias @ ''.'' @ col) ALLOWED_FILTER_COLUMNS"

text \<open>An allow-listed piece of SQL: an operator text, a qualified column or a placeholder.\<close>

definition sql_token :: "string \<Rightarrow> string \<Rightarrow> bool" where
  "sql_token tblAlias t =
     (t \<in> set SQL_OPERATORS \<or> t \<in> set (qualified_columns tblAlias) \<or> (\<exists>n. t = placeholder n))"

text \<open>The text is a concatenation of allow-listed pieces.\<close>

definition built_from_allow_list :: "string \<Rightarrow> string \<Rightarrow> bool" where
  "built_from_allow_list tblAlias s = (\<exists>ts. s = concat ts \<and> list_all (sql_token tblAlias) ts)"

text \<open>\<open>join\<close> on the level of pieces, and the pieces of one compiled DSL condition.\<close>

fun join_tokens :: "string \<Rightarrow> string list \<Rightarrow> string list" where
  "join_tokens sep [] = []"
| "join_tokens sep [x] = [x]"
| "join_tokens sep (x # y # ys) = x # sep # join_tokens sep (y # ys)"

definition condition_tokens :: "string \<Rightarrow> bool \<Rightarrow> string \<Rightarrow> nat \<Rightarrow> nat \<Rightarrow> string list" where
  "condition_tokens col isPath opr i n =
     (if opr = ''eq'' then
        (if isPath then [col, '' LIKE '', placeholder i, like_suffix]
         else [col, '' = '', placeholder i])
      else if opr = ''ne'' then
        (if isPath then [col, '' NOT LIKE '', placeholder i, like_suffix]
         else [col, '' != '', placeholder i])
      else if opr = ''gt'' then [col, '' > '', placeholder i]
      else if opr = ''gte'' then [col, '' >= '', placeholder i]
      else if opr = ''lt'' then [col, '' < '', placeholder i]
      else if opr = ''lte'' then [col, '' <= '', placeholder i]
      else if opr = ''in'' then
        [col, '' IN (''] @ join_tokens '', '' (map (\<lambda>k. placeholder (i + k)) [0..<n]) @ ['')'']
      else if opr = ''notIn'' then
        [col, '' NOT IN (''] @ join_tokens '', '' (map (\<lambda>k. placeholder (i + k)) [0..<n]) @ ['')'']
      else if opr = ''between'' then
        [col, '' >= '', placeholder i, '' AND '', col, '' <= '', placeholder (i + 1)]
      else if opr = ''notBetween'' then
        [''('', col, '' < '', placeholder i, '' OR '', col, '' > '', placeholder (i + 1), '')'']
      else if opr = ''isNull'' then [col, '' IS NULL'']
      else if opr = ''isNotNull'' then [col, '' IS NOT NULL'']
      else [])"


text \<open>
  The structure of a filter: for a DSL filter the field, operator and arity of each
  condition and the \<open>combine\<close> value; for a legacy filter the keys, with the keys of the
  elements of \<open>must\<close> and \<open>must_not\<close>. The values are left out.
\<close>

definition cond_structure :: "FilterCondition \<Rightarrow> string \<times> string \<times> nat" where
  "cond_structure c = (cond_field c, cond_op c, cond_arity c)"

text \<open>The value of a \<open>must\<close>/\<open>must_not\<close> element, \<open>match.value ?? match.text\<close>.\<close>

definition must_value :: "MustCond \<Rightarrow> jsval" where
  "must_value c = nullish_coalesce (match_value c) (match_text c)"

fun prop_structure :: "legacy_prop \<Rightarrow> string \<times> string list" where
  "prop_structure (Must cs) = (''must'', map key cs)"
| "prop_structure (MustNot cs) = (''must_not'', map key cs)"
| "prop_structure (KeyValue k v) = (k, [])"

text \<open>The values of a filter, in the order of its conditions.\<close>

fun prop_values :: "legacy_prop \<Rightarrow> jsval list" where
  "prop_values (Must cs) = map must_value cs"
| "prop_values (MustNot cs) = map must_value cs"
| "prop_values (KeyValue k v) = [v]"

datatype filter_structure =
    NoFilter
  | DSLStructure "(string \<times> string \<times> nat) list" "string option"
  | LegacyStructure "(string \<times> string list) list"

fun structure_of :: "filter_object option \<Rightarrow> filter_structure" where
  "structure_of None = NoFilter"
| "structure_of (Some (DSLObject dsl object_keys)) =
     DSLStructure (map cond_structure (conditions dsl)) (combine dsl)"
| "structure_of (Some (LegacyObject props)) = LegacyStructure (map prop_structure props)"

fun values_of :: "filter_object option \<Rightarrow> jsval list" where
  "values_of None = []"
| "values_of (Some (DSLObject dsl object_keys)) = concat (map cond_params (conditions dsl))"
| "values_of (Some (LegacyObject props)) = concat (map prop_values props)"


text \<open>Two DSL filters of the same structure with different values.\<close>

definition benign_filter :: filter_object where
  "benign_filter =
     DSLObject
       \<lparr>conditions =
          [\<lparr>cond_field = ''path'', cond_op = ''eq'', cond_value = JStr ''src/'',
            cond_values = None, cond_range = None, cond_alias = None\<rparr>,
           \<lparr>cond_field = ''lang'', cond_op = ''in'', cond_value = JUndefined,
            cond_values = Some [JStr ''ts'', JStr ''js''], cond_range = None,
            cond_alias = None\<rparr>],
        combine = Some ''or''\<rparr>
       [''conditions'', ''combine'']"

definition hostile_filter :: filter_object where
  "hostile_filter =
     DSLObject
       \<lparr>conditions =
          [\<lparr>cond_field = ''path'', cond_op = ''eq'',
            cond_value = JStr ''x; DROP TABLE chunks; --'',
            cond_values = None, cond_range = None, cond_alias = Some ''c''\<rparr>,
           \<lparr>cond_field = ''lang'', cond_op = ''in'', cond_value = JUndefined,
            cond_values = Some [JStr ''1) OR (1 = 1'', JNull], cond_range = None,
            cond_alias = None\<rparr>],
        combine = Some ''or''\<rparr>
       [''conditions'', ''combine'']"

section \<open>Properties of the new DSL\<close>

subsection \<open>One condition, and the loop over the conditions\<close>

lemma translateCondition_params:
  assumes "translateCondition c i = Inr r"
  shows "params r = cond_params c \<and> nextIndex r = i + cond_arity c
       \<and> length (params r) = cond_arity c"
  using assms
  unfolding translateCondition_def cond_params_def cond_arity_def Let_def
  by (auto split: option.splits if_splits)

lemma length_param_indices [simp]: "length (param_indices n cs) = length cs"
  by (induction cs arbitrary: n) auto

lemma translateConditions_Inr:
  assumes "translateConditions cs fr ps i = Inr (fr', ps', i')"
  shows "fr' = fr @ map2 fragment_of cs (param_indices i cs)
       \<and> ps' = ps @ concat (map cond_params cs)
       \<and> i' = i + sum_list (map cond_arity cs)
       \<and> list_all2 compiles_at cs (param_indices i cs)"
  using assms
proof (induction cs arbitrary: fr ps i)
  case Nil
  then show ?case by simp
next
  case (Cons c cs)
  from Cons.prems obtain r where r: "translateCondition c i = Inr r"
    and rest: "translateConditions cs (fr @ [sql r]) (ps @ params r) (nextIndex r)
                 = Inr (fr', ps', i')"
    by (auto split: sum.splits)
  have p: "params r = cond_params c" and n: "nextIndex r = i + cond_arity c"
    and l: "length (params r) = cond_arity c"
    using translateCondition_params [OF r] by blast+
  from Cons.IH [OF rest] r p n l show ?case
    by (simp add: fragment_of_def compiles_at_def add.assoc)
qed

lemma toUpperCase_and [simp]: "toUpperCase ''and'' = ''AND''"
  by code_simp

lemma toUpperCase_or [simp]: "toUpperCase ''or'' = ''OR''"
  by code_simp

lemma translateNewDSL_Inr:
  assumes "translateNewDSL dsl off = Inr r"
  shows "list_all2 compiles_at (conditions dsl) (param_indices (off + 1) (conditions dsl))
       \<and> (conditions dsl = [] \<longrightarrow> sql r = [] \<and> params r = [])
       \<and> (conditions dsl \<noteq> [] \<longrightarrow> params r = concat (map cond_params (conditions dsl)))
       \<and> (length (conditions dsl) = 1 \<longrightarrow>
            sql r = '' AND '' @ fragment_of (hd (conditions dsl)) (off + 1))
       \<and> (2 \<le> length (conditions dsl) \<longrightarrow>
            sql r = '' AND ('' @ join (combine_separator dsl)
                      (map2 fragment_of (conditions dsl)
                         (param_indices (off + 1) (conditions dsl))) @ '')'')
       \<and> (combine dsl = None \<or> combine dsl = Some ''and'' \<or> combine dsl = Some ''or'')"
proof -
  let ?cs = "conditions dsl"
  from assms
  have comb: "combine dsl = None \<or> combine dsl = Some ''and'' \<or> combine dsl = Some ''or''"
    by (auto simp: translateNewDSL_def Let_def split: option.splits if_splits)
  from assms obtain fr ps i
    where loop: "translateConditions ?cs [] [] (1 + off) = Inr (fr, ps, i)"
    by (auto simp: translateNewDSL_def Let_def split: option.splits if_splits sum.splits)
  from translateConditions_Inr [OF loop]
  have fr: "fr = map2 fragment_of ?cs (param_indices (off + 1) ?cs)"
    and ps: "ps = concat (map cond_params ?cs)"
    and all: "list_all2 compiles_at ?cs (param_indices (off + 1) ?cs)"
    by simp_all
  have len: "length fr = length ?cs" using fr by simp
  have sep: "'' '' @ toUpperCase (case combine dsl of None \<Rightarrow> ''and'' | Some s \<Rightarrow> s) @ '' ''
               = combine_separator dsl"
    using comb by (auto simp: combine_separator_def)
  have r: "r = (if length fr = 0 then \<lparr>sql = [], params = []\<rparr>
               else \<lparr>sql = '' AND '' @ (if length fr = 1 then hd fr
                       else ''('' @ join (combine_separator dsl) fr @ '')''), params = ps\<rparr>)"
    using assms loop comb sep
    by (auto simp: translateNewDSL_def Let_def split: if_splits)
  have one: "length ?cs = 1 \<Longrightarrow> hd fr = fragment_of (hd ?cs) (off + 1)"
    using fr by (cases ?cs) auto
  show ?thesis
    using r len all comb one fr ps by (cases ?cs) (auto simp del: length_0_conv)
qed




subsection \<open>Which DSL filters are rejected\<close>

lemma translateCondition_Inl_FVE:
  assumes "translateCondition c i = Inl e"
  shows "isFilterValidationError e"
  using assms unfolding translateCondition_def Let_def
  by (auto split: option.splits if_splits)

lemma translateCondition_fault_iff:
  "(\<exists>e. translateCondition c i = Inl e) \<longleftrightarrow> (listed_condition_fault c \<or> values_absent c)"
  unfolding translateCondition_def listed_condition_fault_def values_absent_def Let_def ALL_OPERATORS_def
  by (auto split: option.splits if_splits)


lemma translateConditions_Inl_FVE:
  "translateConditions cs fr ps i = Inl e \<Longrightarrow> isFilterValidationError e"
proof (induction cs arbitrary: fr ps i)
  case Nil
  then show ?case by simp
next
  case (Cons c cs)
  then show ?case
    by (auto split: sum.splits dest: translateCondition_Inl_FVE)
qed

lemma translateConditions_fault_iff:
  "(\<exists>e. translateConditions cs fr ps i = Inl e)
     \<longleftrightarrow> list_ex (\<lambda>c. listed_condition_fault c \<or> values_absent c) cs"
proof (induction cs arbitrary: fr ps i)
  case Nil
  show ?case by simp
next
  case (Cons c cs)
  show ?case
  proof (cases "translateCondition c i")
    case (Inl e)
    then have "listed_condition_fault c \<or> values_absent c"
      using translateCondition_fault_iff [of c i] by blast
    with Inl show ?thesis by simp
  next
    case (Inr r)
    then have "\<not> (listed_condition_fault c \<or> values_absent c)"
      using translateCondition_fault_iff [of c i] by auto
    with Inr Cons.IH [of "fr @ [sql r]" "ps @ params r" "nextIndex r"] show ?thesis by simp
  qed
qed

lemma translateNewDSL_Inl_FVE:
  "translateNewDSL dsl off = Inl e \<Longrightarrow> isFilterValidationError e"
  unfolding translateNewDSL_def Let_def
  by (auto split: if_splits sum.splits prod.splits dest: translateConditions_Inl_FVE)

lemma translateNewDSL_fault_iff:
  "(\<exists>e. translateNewDSL dsl off = Inl e) \<longleftrightarrow> dsl_fault dsl"
proof (cases "invalid_combine dsl")
  case True
  then show ?thesis
    by (auto simp: translateNewDSL_def dsl_fault_def invalid_combine_def Let_def
             split: option.splits)
next
  case False
  then have ok: "\<not> ((case combine dsl of None \<Rightarrow> ''and'' | Some s \<Rightarrow> s) \<noteq> ''and''
                   \<and> (case combine dsl of None \<Rightarrow> ''and'' | Some s \<Rightarrow> s) \<noteq> ''or'')"
    by (auto simp: invalid_combine_def split: option.splits)
  have "(\<exists>e. translateNewDSL dsl off = Inl e)
          \<longleftrightarrow> (\<exists>e. translateConditions (conditions dsl) [] [] (1 + off) = Inl e)"
    using ok unfolding translateNewDSL_def Let_def
    by (auto split: sum.splits prod.splits)
  with False show ?thesis
    by (simp add: dsl_fault_def translateConditions_fault_iff)
qed

lemma filter_extra_keys: "(length (filter (\<lambda>k. k \<notin> set dslKeys) ks) > 0) = mixed_keys ks"
  by (induction ks) (auto simp: mixed_keys_def)

lemma statusCode_FVE: "isFilterValidationError e \<Longrightarrow> statusCode e = Some 400"
  by (cases e) auto

section \<open>The emitted SQL depends on the structure only\<close>

lemma concat_join_tokens: "concat (join_tokens sep xs) = join sep xs"
  by (induction sep xs rule: join_tokens.induct) auto

lemma list_all_join_tokens:
  "P sep \<Longrightarrow> list_all P xs \<Longrightarrow> list_all P (join_tokens sep xs)"
  by (induction sep xs rule: join_tokens.induct) auto


lemma sql_token_ops:
  "sql_token a '' AND ''" "sql_token a '' OR ''" "sql_token a ''(''" "sql_token a '')''"
  "sql_token a '' = ''" "sql_token a '' != ''" "sql_token a '' > ''" "sql_token a '' >= ''"
  "sql_token a '' < ''" "sql_token a '' <= ''" "sql_token a '' LIKE ''"
  "sql_token a '' NOT LIKE ''" "sql_token a like_suffix" "sql_token a '' IN (''"
  "sql_token a '' NOT IN (''" "sql_token a '', ''" "sql_token a '' IS NULL''"
  "sql_token a '' IS NOT NULL''"
  unfolding sql_token_def SQL_OPERATORS_def by simp_all

lemma sql_token_placeholder: "sql_token a (placeholder n)"
  by (auto simp: sql_token_def)

lemma condition_tokens_allowed:
  assumes "sql_token a col"
  shows "list_all (sql_token a) (condition_tokens col isPath opr i n)"
proof -
  have ph: "list_all (sql_token a) (join_tokens '', '' (map (\<lambda>k. placeholder (i + k)) [0..<n]))"
    by (rule list_all_join_tokens) (simp_all add: sql_token_ops list_all_iff sql_token_placeholder)
  show ?thesis
    unfolding condition_tokens_def
    by (simp add: assms ph sql_token_ops sql_token_placeholder)
qed


lemma translateCondition_tokens:
  assumes "translateCondition c i = Inr r"
  shows "\<exists>fd. FIELD_DEFS_get (cond_field c) = Some fd
            \<and> sql r = concat (condition_tokens (tableAlias fd @ ''.'' @ column fd)
                               (column fd = ''path'') (cond_op c) i (cond_arity c))"
proof -
  from assms obtain fd where fd: "FIELD_DEFS_get (cond_field c) = Some fd"
    unfolding translateCondition_def by (auto split: option.splits)
  have "sql r = concat (condition_tokens (tableAlias fd @ ''.'' @ column fd)
                               (column fd = ''path'') (cond_op c) i (cond_arity c))"
    using assms fd
    unfolding translateCondition_def condition_tokens_def cond_arity_def Let_def like_suffix_def
    by (auto simp: concat_join_tokens split: option.splits if_splits)
  with fd show ?thesis by blast
qed


lemma builtI:
  "s = concat ts \<Longrightarrow> list_all (sql_token a) ts \<Longrightarrow> built_from_allow_list a s"
  unfolding built_from_allow_list_def by blast

lemma built_Nil: "built_from_allow_list a []"
  by (rule builtI [of _ "[]"]) simp_all

lemma built_token: "sql_token a t \<Longrightarrow> built_from_allow_list a t"
  by (rule builtI [of _ "[t]"]) simp_all

lemma built_append:
  assumes "built_from_allow_list a s" and "built_from_allow_list a s'"
  shows "built_from_allow_list a (s @ s')"
proof -
  from assms obtain ts ts' where "s = concat ts" "list_all (sql_token a) ts"
    "s' = concat ts'" "list_all (sql_token a) ts'"
    unfolding built_from_allow_list_def by blast
  then show ?thesis
    by (intro builtI [of _ "ts @ ts'"]) simp_all
qed

lemma built_join:
  assumes "built_from_allow_list a sep" and "list_all (built_from_allow_list a) xs"
  shows "built_from_allow_list a (join sep xs)"
  using assms
proof (induction sep xs rule: join.induct)
  case (1 sep)
  show ?case by (simp add: built_Nil)
next
  case (2 sep x)
  then show ?case by simp
next
  case (3 sep x y ys)
  then have s: "built_from_allow_list a sep" and x: "built_from_allow_list a x"
    and r: "built_from_allow_list a (join sep (y # ys))"
    by simp_all
  have "built_from_allow_list a (x @ (sep @ join sep (y # ys)))"
    by (intro built_append x r s)
  then show ?case by simp
qed

lemma sql_token_dsl_column:
  assumes "FIELD_DEFS_get f = Some fd"
  shows "sql_token a (tableAlias fd @ ''.'' @ column fd)"
proof -
  from assms have "(f, fd) \<in> set FIELD_DEFS"
    unfolding FIELD_DEFS_get_def by (rule map_of_SomeD)
  then have "tableAlias fd @ ''.'' @ column fd
               \<in> (\<lambda>(name, fd). tableAlias fd @ ''.'' @ column fd) ` set FIELD_DEFS"
    by force
  then show ?thesis
    unfolding sql_token_def qualified_columns_def by simp
qed

lemma sql_token_legacy_column:
  assumes "toAllowedColumn k = Inr col"
  shows "sql_token a (a @ ''.'' @ col)"
proof -
  from assms have "col \<in> set ALLOWED_FILTER_COLUMNS"
    unfolding toAllowedColumn_def Let_def by (auto split: if_splits)
  then show ?thesis
    unfolding sql_token_def qualified_columns_def by simp
qed

lemma translateCondition_built:
  assumes "translateCondition c i = Inr r"
  shows "built_from_allow_list a (sql r)"
proof -
  from translateCondition_tokens [OF assms] obtain fd
    where fd: "FIELD_DEFS_get (cond_field c) = Some fd"
      and s: "sql r = concat (condition_tokens (tableAlias fd @ ''.'' @ column fd)
                               (column fd = ''path'') (cond_op c) i (cond_arity c))"
    by blast
  from s show ?thesis
    by (rule builtI) (rule condition_tokens_allowed [OF sql_token_dsl_column [OF fd]])
qed

lemma fragment_of_structure:
  assumes "compiles_at c i" and "compiles_at c' i" and "cond_structure c = cond_structure c'"
  shows "fragment_of c i = fragment_of c' i"
proof -
  from assms(1) obtain r where r: "translateCondition c i = Inr r"
    by (auto simp: compiles_at_def split: sum.splits)
  from assms(2) obtain r' where r': "translateCondition c' i = Inr r'"
    by (auto simp: compiles_at_def split: sum.splits)
  from assms(3) have eq: "cond_field c = cond_field c'" "cond_op c = cond_op c'"
    "cond_arity c = cond_arity c'"
    by (simp_all add: cond_structure_def)
  from translateCondition_tokens [OF r] translateCondition_tokens [OF r'] eq
  have "sql r = sql r'" by auto
  with r r' show ?thesis by (simp add: fragment_of_def)
qed

lemma fragment_of_built:
  assumes "compiles_at c i"
  shows "built_from_allow_list a (fragment_of c i)"
proof -
  from assms obtain r where r: "translateCondition c i = Inr r"
    by (auto simp: compiles_at_def split: sum.splits)
  from translateCondition_built [OF r] r show ?thesis by (simp add: fragment_of_def)
qed

lemma param_indices_structure:
  "map cond_structure cs = map cond_structure cs' \<Longrightarrow> param_indices i cs = param_indices i cs'"
proof (induction cs arbitrary: cs' i)
  case Nil
  then show ?case by simp
next
  case (Cons c cs)
  then obtain c' cs'' where cs': "cs' = c' # cs''" by (cases cs') auto
  with Cons.prems have st: "cond_structure c = cond_structure c'"
    and sts: "map cond_structure cs = map cond_structure cs''"
    by simp_all
  from st have "cond_arity c = cond_arity c'" by (simp add: cond_structure_def)
  with Cons.IH [OF sts, of "i + cond_arity c"] cs' show ?case by simp
qed

lemma fragments_structure:
  assumes "list_all2 compiles_at cs idxs" and "list_all2 compiles_at cs' idxs"
    and "map cond_structure cs = map cond_structure cs'"
  shows "map2 fragment_of cs idxs = map2 fragment_of cs' idxs"
  using assms
proof (induction cs idxs arbitrary: cs' rule: list_all2_induct)
  case Nil
  then show ?case by simp
next
  case (Cons c cs i idxs)
  then obtain c' cs'' where cs': "cs' = c' # cs''" by (cases cs') auto
  with Cons.prems have c': "compiles_at c' i" and rest: "list_all2 compiles_at cs'' idxs"
    and st: "cond_structure c = cond_structure c'"
    and sts: "map cond_structure cs = map cond_structure cs''"
    by simp_all
  from fragment_of_structure [OF Cons.hyps(1) c' st] Cons.IH [OF rest sts] cs'
  show ?case by simp
qed

lemma fragments_built:
  "list_all2 compiles_at cs idxs \<Longrightarrow> list_all (built_from_allow_list a) (map2 fragment_of cs idxs)"
  by (induction cs idxs rule: list_all2_induct) (simp_all add: fragment_of_built)

lemma translateNewDSL_structure:
  assumes r: "translateNewDSL dsl off = Inr r" and r': "translateNewDSL dsl' off = Inr r'"
    and st: "map cond_structure (conditions dsl) = map cond_structure (conditions dsl')"
    and cb: "combine dsl = combine dsl'"
  shows "sql r = sql r'"
proof -
  let ?cs = "conditions dsl" and ?cs' = "conditions dsl'"
  have len: "length ?cs = length ?cs'" using st by (rule map_eq_imp_length_eq)
  have idx: "param_indices (off + 1) ?cs = param_indices (off + 1) ?cs'"
    using st by (rule param_indices_structure)
  note A = translateNewDSL_Inr [OF r] and B = translateNewDSL_Inr [OF r']
  from A have a: "list_all2 compiles_at ?cs (param_indices (off + 1) ?cs)" by blast
  from B have b: "list_all2 compiles_at ?cs' (param_indices (off + 1) ?cs)" using idx by simp
  have frs: "map2 fragment_of ?cs (param_indices (off + 1) ?cs)
           = map2 fragment_of ?cs' (param_indices (off + 1) ?cs')"
    using fragments_structure [OF a b st] idx by simp
  have sep: "combine_separator dsl = combine_separator dsl'"
    using cb by (simp add: combine_separator_def)
  consider "?cs = []" | "length ?cs = 1" | "2 \<le> length ?cs"
    by (cases ?cs) (auto simp: Suc_le_eq)
  then show ?thesis
  proof cases
    case 1
    with len A B show ?thesis by simp
  next
    case 2
    then obtain c where c: "?cs = [c]" by (cases ?cs) auto
    from 2 len obtain c' where c': "?cs' = [c']" by (cases ?cs') auto
    from frs c c' have "fragment_of c (off + 1) = fragment_of c' (off + 1)" by simp
    moreover from A c have "sql r = '' AND '' @ fragment_of c (off + 1)" by simp
    moreover from B c' have "sql r' = '' AND '' @ fragment_of c' (off + 1)" by simp
    ultimately show ?thesis by simp
  next
    case 3
    with A have "sql r = '' AND ('' @ join (combine_separator dsl)
                      (map2 fragment_of ?cs (param_indices (off + 1) ?cs)) @ '')''" by blast
    moreover from 3 len B have "sql r' = '' AND ('' @ join (combine_separator dsl')
                      (map2 fragment_of ?cs' (param_indices (off + 1) ?cs')) @ '')''" by simp
    ultimately show ?thesis using frs sep by simp
  qed
qed

lemma translateNewDSL_built:
  assumes r: "translateNewDSL dsl off = Inr r"
  shows "built_from_allow_list a (sql r)"
proof -
  let ?cs = "conditions dsl"
  let ?frs = "map2 fragment_of ?cs (param_indices (off + 1) ?cs)"
  note A = translateNewDSL_Inr [OF r]
  from A have all: "list_all2 compiles_at ?cs (param_indices (off + 1) ?cs)" by blast
  have frs: "list_all (built_from_allow_list a) ?frs"
    using all by (rule fragments_built)
  have sep: "built_from_allow_list a (combine_separator dsl)"
    by (simp add: combine_separator_def built_token sql_token_ops)
  have AND: "built_from_allow_list a '' AND ''" and lp: "built_from_allow_list a ''(''"
    and rp: "built_from_allow_list a '')''"
    by (simp_all add: built_token sql_token_ops)
  consider "?cs = []" | "length ?cs = 1" | "2 \<le> length ?cs"
    by (cases ?cs) (auto simp: Suc_le_eq)
  then show ?thesis
  proof cases
    case 1
    with A show ?thesis by (simp add: built_Nil)
  next
    case 2
    then obtain c where c: "?cs = [c]" by (cases ?cs) auto
    from A c have s: "sql r = '' AND '' @ fragment_of c (off + 1)" by simp
    from all c have "compiles_at c (off + 1)" by simp
    then have "built_from_allow_list a (fragment_of c (off + 1))" by (rule fragment_of_built)
    then have "built_from_allow_list a ('' AND '' @ fragment_of c (off + 1))"
      by (intro built_append AND)
    with s show ?thesis by simp
  next
    case 3
    with A have s: "sql r = '' AND '' @ (''('' @ (join (combine_separator dsl) ?frs @ '')''))"
      by simp
    have "built_from_allow_list a ('' AND '' @ (''('' @ (join (combine_separator dsl) ?frs @ '')'')))"
      by (intro built_append AND lp rp built_join sep frs)
    with s show ?thesis by simp
  qed
qed


lemma translateMustConds_params:
  assumes "translateMustConds l e a cs (F, P, i) = Inr (F', P', i')"
  shows "P' = P @ map must_value cs"
  using assms
proof (induction cs arbitrary: F P i)
  case Nil
  then show ?case by simp
next
  case (Cons c cs)
  from Cons.prems obtain F1
    where 1: "translateMustConds l e a cs (F1, P @ [must_value c], i + 1) = Inr (F', P', i')"
    by (auto simp: Let_def must_value_def split: sum.splits)
  from Cons.IH [OF 1] show ?case by simp
qed

lemma translateMustConds_structure:
  assumes "translateMustConds l e a cs (F, P, i) = Inr (F1, P1, i1)"
    and "translateMustConds l e a cs' (F, P', i) = Inr (F2, P2, i2)"
    and "map key cs = map key cs'"
  shows "F1 = F2 \<and> i1 = i2"
  using assms
proof (induction cs arbitrary: cs' F P P' i)
  case Nil
  then show ?case by simp
next
  case (Cons c cs)
  then obtain c' cs'' where cs': "cs' = c' # cs''" by (cases cs') auto
  with Cons.prems(3) have k: "key c' = key c" and ks: "map key cs = map key cs''"
    by simp_all
  from Cons.prems(1) obtain col where col: "toAllowedColumn (key c) = Inr col"
    by (auto split: sum.splits)
  let ?frag = "if col = ''path''
               then a @ ''.'' @ col @ l @ placeholder i @ '' || '' @ squote @ ''%'' @ squote
               else a @ ''.'' @ col @ e @ placeholder i"
  from Cons.prems(1) col
  have 1: "translateMustConds l e a cs (F @ [?frag], P @ [must_value c], i + 1)
             = Inr (F1, P1, i1)"
    by (simp add: Let_def must_value_def)
  from Cons.prems(2) col cs' k
  have 2: "translateMustConds l e a cs'' (F @ [?frag], P' @ [must_value c'], i + 1)
             = Inr (F2, P2, i2)"
    by (simp add: Let_def must_value_def)
  from Cons.IH [OF 1 2 ks] show ?case .
qed

lemma translateMustConds_built:
  assumes "translateMustConds l e a cs (F, P, i) = Inr (F', P', i')"
    and "sql_token a l" and "sql_token a e"
    and "list_all (built_from_allow_list a) F"
  shows "list_all (built_from_allow_list a) F'"
  using assms
proof (induction cs arbitrary: F P i)
  case Nil
  then show ?case by simp
next
  case (Cons c cs)
  from Cons.prems(1) obtain col where col: "toAllowedColumn (key c) = Inr col"
    by (auto split: sum.splits)
  let ?frag = "if col = ''path''
               then a @ ''.'' @ col @ l @ placeholder i @ '' || '' @ squote @ ''%'' @ squote
               else a @ ''.'' @ col @ e @ placeholder i"
  from Cons.prems(1) col
  have 1: "translateMustConds l e a cs (F @ [?frag], P @ [must_value c], i + 1)
             = Inr (F', P', i')"
    by (simp add: Let_def must_value_def)
  have ts: "list_all (sql_token a) [a @ ''.'' @ col, l, placeholder i, like_suffix]"
    using sql_token_legacy_column [OF col, of a] Cons.prems(2)
    by (simp add: sql_token_placeholder sql_token_ops)
  have ts': "list_all (sql_token a) [a @ ''.'' @ col, e, placeholder i]"
    using sql_token_legacy_column [OF col, of a] Cons.prems(3)
    by (simp add: sql_token_placeholder)
  have "built_from_allow_list a ?frag"
  proof (cases "col = ''path''")
    case True
    have "?frag = concat [a @ ''.'' @ col, l, placeholder i, like_suffix]"
      using True by (simp add: like_suffix_def)
    then show ?thesis using ts by (rule builtI)
  next
    case False
    have "?frag = concat [a @ ''.'' @ col, e, placeholder i]"
      using False by simp
    then show ?thesis using ts' by (rule builtI)
  qed
  with Cons.prems(4) have "list_all (built_from_allow_list a) (F @ [?frag])" by simp
  from Cons.IH [OF 1 Cons.prems(2) Cons.prems(3) this] show ?case .
qed

lemma toAllowedColumn_must: "toAllowedColumn ''must'' = Inl (Error ''Unsupported filter key: must'')"
  by code_simp

lemma toAllowedColumn_must_not:
  "toAllowedColumn ''must_not'' = Inl (Error ''Unsupported filter key: must_not'')"
  by code_simp

lemma translateLegacyProps_params:
  assumes "translateLegacyProps a ps (F, P, i) = Inr (F', P', i')"
  shows "P' = P @ concat (map prop_values ps)"
  using assms
proof (induction ps arbitrary: F P i)
  case Nil
  then show ?case by simp
next
  case (Cons p ps)
  show ?case
  proof (cases p)
    case (Must cs)
    with Cons.prems obtain F1 P1 i1
      where m: "translateMustConds '' LIKE '' '' = '' a cs (F, P, i) = Inr (F1, P1, i1)"
        and r: "translateLegacyProps a ps (F1, P1, i1) = Inr (F', P', i')"
      by (auto split: sum.splits)
    from translateMustConds_params [OF m] Cons.IH [OF r] Must show ?thesis by simp
  next
    case (MustNot cs)
    with Cons.prems obtain F1 P1 i1
      where m: "translateMustConds '' NOT LIKE '' '' != '' a cs (F, P, i) = Inr (F1, P1, i1)"
        and r: "translateLegacyProps a ps (F1, P1, i1) = Inr (F', P', i')"
      by (auto split: sum.splits)
    from translateMustConds_params [OF m] Cons.IH [OF r] MustNot show ?thesis by simp
  next
    case (KeyValue k v)
    with Cons.prems obtain F1
      where r: "translateLegacyProps a ps (F1, P @ [v], i + 1) = Inr (F', P', i')"
      by (auto simp: Let_def split: sum.splits)
    from Cons.IH [OF r] KeyValue show ?thesis by simp
  qed
qed


lemma KeyValue_must_fails:
  "translateLegacyProps a (KeyValue ''must'' v # ps) acc \<noteq> Inr res"
  by (cases acc) (simp add: toAllowedColumn_must)

lemma KeyValue_must_not_fails:
  "translateLegacyProps a (KeyValue ''must_not'' v # ps) acc \<noteq> Inr res"
  by (cases acc) (simp add: toAllowedColumn_must_not)

lemma translateLegacyProps_structure:
  assumes "translateLegacyProps a ps (F, P, i) = Inr (F1, P1, i1)"
    and "translateLegacyProps a ps' (F, P', i) = Inr (F2, P2, i2)"
    and "map prop_structure ps = map prop_structure ps'"
  shows "F1 = F2 \<and> i1 = i2"
  using assms
proof (induction ps arbitrary: ps' F P P' i)
  case Nil
  then show ?case by simp
next
  case (Cons p ps)
  then obtain p' ps'' where ps': "ps' = p' # ps''" by (cases ps') auto
  with Cons.prems(3) have st: "prop_structure p = prop_structure p'"
    and sts: "map prop_structure ps = map prop_structure ps''"
    by simp_all
  note run1 = Cons.prems(1) and run2 = Cons.prems(2) [unfolded ps']
  show ?case
  proof (cases p)
    case (Must cs)
    show ?thesis
    proof (cases p')
      case (Must cs')
      from run1 \<open>p = Must cs\<close> obtain Fa Pa ia
        where m1: "translateMustConds '' LIKE '' '' = '' a cs (F, P, i) = Inr (Fa, Pa, ia)"
          and r1: "translateLegacyProps a ps (Fa, Pa, ia) = Inr (F1, P1, i1)"
        by (auto split: sum.splits)
      from run2 Must obtain Fb Pb ib
        where m2: "translateMustConds '' LIKE '' '' = '' a cs' (F, P', i) = Inr (Fb, Pb, ib)"
          and r2: "translateLegacyProps a ps'' (Fb, Pb, ib) = Inr (F2, P2, i2)"
        by (auto split: sum.splits)
      from st \<open>p = Must cs\<close> Must have "map key cs = map key cs'" by simp
      from translateMustConds_structure [OF m1 m2 this] have "Fa = Fb" "ia = ib" by simp_all
      with r2 have "translateLegacyProps a ps'' (Fa, Pb, ia) = Inr (F2, P2, i2)" by simp
      from Cons.IH [OF r1 this sts] show ?thesis .
    next
      case (MustNot cs')
      with st \<open>p = Must cs\<close> show ?thesis by simp
    next
      case (KeyValue k v)
      with st \<open>p = Must cs\<close> have "k = ''must''" by simp
      with run2 KeyValue KeyValue_must_fails show ?thesis by blast
    qed
  next
    case (MustNot cs)
    show ?thesis
    proof (cases p')
      case (Must cs')
      with st \<open>p = MustNot cs\<close> show ?thesis by simp
    next
      case (MustNot cs')
      from run1 \<open>p = MustNot cs\<close> obtain Fa Pa ia
        where m1: "translateMustConds '' NOT LIKE '' '' != '' a cs (F, P, i) = Inr (Fa, Pa, ia)"
          and r1: "translateLegacyProps a ps (Fa, Pa, ia) = Inr (F1, P1, i1)"
        by (auto split: sum.splits)
      from run2 MustNot obtain Fb Pb ib
        where m2: "translateMustConds '' NOT LIKE '' '' != '' a cs' (F, P', i) = Inr (Fb, Pb, ib)"
          and r2: "translateLegacyProps a ps'' (Fb, Pb, ib) = Inr (F2, P2, i2)"
        by (auto split: sum.splits)
      from st \<open>p = MustNot cs\<close> MustNot have "map key cs = map key cs'" by simp
      from translateMustConds_structure [OF m1 m2 this] have "Fa = Fb" "ia = ib" by simp_all
      with r2 have "translateLegacyProps a ps'' (Fa, Pb, ia) = Inr (F2, P2, i2)" by simp
      from Cons.IH [OF r1 this sts] show ?thesis .
    next
      case (KeyValue k v)
      with st \<open>p = MustNot cs\<close> have "k = ''must_not''" by simp
      with run2 KeyValue KeyValue_must_not_fails show ?thesis by blast
    qed
  next
    case (KeyValue k v)
    show ?thesis
    proof (cases p')
      case (Must cs')
      with st \<open>p = KeyValue k v\<close> have "k = ''must''" by simp
      with run1 \<open>p = KeyValue k v\<close> KeyValue_must_fails show ?thesis by blast
    next
      case (MustNot cs')
      with st \<open>p = KeyValue k v\<close> have "k = ''must_not''" by simp
      with run1 \<open>p = KeyValue k v\<close> KeyValue_must_not_fails show ?thesis by blast
    next
      case (KeyValue k' v')
      with st \<open>p = KeyValue k v\<close> have k: "k' = k" by simp
      from run1 \<open>p = KeyValue k v\<close> obtain col where col: "toAllowedColumn k = Inr col"
        by (auto split: sum.splits)
      let ?frag = "if col = ''path''
                   then a @ ''.'' @ col @ '' LIKE '' @ placeholder i
                          @ '' || '' @ squote @ ''%'' @ squote
                   else a @ ''.'' @ col @ '' = '' @ placeholder i"
      from run1 \<open>p = KeyValue k v\<close> col
      have r1: "translateLegacyProps a ps (F @ [?frag], P @ [v], i + 1) = Inr (F1, P1, i1)"
        by (simp add: Let_def)
      from run2 KeyValue k col
      have r2: "translateLegacyProps a ps'' (F @ [?frag], P' @ [v'], i + 1) = Inr (F2, P2, i2)"
        by (simp add: Let_def)
      from Cons.IH [OF r1 r2 sts] show ?thesis .
    qed
  qed
qed

lemma translateLegacyProps_built:
  assumes "translateLegacyProps a ps (F, P, i) = Inr (F', P', i')"
    and "list_all (built_from_allow_list a) F"
  shows "list_all (built_from_allow_list a) F'"
  using assms
proof (induction ps arbitrary: F P i)
  case Nil
  then show ?case by simp
next
  case (Cons p ps)
  show ?case
  proof (cases p)
    case (Must cs)
    with Cons.prems(1) obtain Fa Pa ia
      where m: "translateMustConds '' LIKE '' '' = '' a cs (F, P, i) = Inr (Fa, Pa, ia)"
        and r: "translateLegacyProps a ps (Fa, Pa, ia) = Inr (F', P', i')"
      by (auto split: sum.splits)
    have "list_all (built_from_allow_list a) Fa"
      using m sql_token_ops(11) sql_token_ops(5) Cons.prems(2)
      by (rule translateMustConds_built)
    from Cons.IH [OF r this] show ?thesis .
  next
    case (MustNot cs)
    with Cons.prems(1) obtain Fa Pa ia
      where m: "translateMustConds '' NOT LIKE '' '' != '' a cs (F, P, i) = Inr (Fa, Pa, ia)"
        and r: "translateLegacyProps a ps (Fa, Pa, ia) = Inr (F', P', i')"
      by (auto split: sum.splits)
    have "list_all (built_from_allow_list a) Fa"
      using m sql_token_ops(12) sql_token_ops(6) Cons.prems(2)
      by (rule translateMustConds_built)
    from Cons.IH [OF r this] show ?thesis .
  next
    case (KeyValue k v)
    from Cons.prems(1) KeyValue obtain col where col: "toAllowedColumn k = Inr col"
      by (auto split: sum.splits)
    let ?frag = "if col = ''path''
                 then a @ ''.'' @ col @ '' LIKE '' @ placeholder i
                        @ '' || '' @ squote @ ''%'' @ squote
                 else a @ ''.'' @ col @ '' = '' @ placeholder i"
    from Cons.prems(1) KeyValue col
    have r: "translateLegacyProps a ps (F @ [?frag], P @ [v], i + 1) = Inr (F', P', i')"
      by (simp add: Let_def)
    have ts: "list_all (sql_token a) [a @ ''.'' @ col, '' LIKE '', placeholder i, like_suffix]"
      using sql_token_legacy_column [OF col, of a]
      by (simp add: sql_token_placeholder sql_token_ops)
    have ts': "list_all (sql_token a) [a @ ''.'' @ col, '' = '', placeholder i]"
      using sql_token_legacy_column [OF col, of a]
      by (simp add: sql_token_placeholder sql_token_ops)
    have "built_from_allow_list a ?frag"
    proof (cases "col = ''path''")
      case True
      have "?frag = concat [a @ ''.'' @ col, '' LIKE '', placeholder i, like_suffix]"
        using True by (simp add: like_suffix_def)
      then show ?thesis using ts by (rule builtI)
    next
      case False
      have "?frag = concat [a @ ''.'' @ col, '' = '', placeholder i]"
        using False by simp
      then show ?thesis using ts' by (rule builtI)
    qed
    with Cons.prems(2) have "list_all (built_from_allow_list a) (F @ [?frag])" by simp
    from Cons.IH [OF r this] show ?thesis .
  qed
qed

lemma translateLegacyFilter_Inr:
  assumes "translateLegacyFilter ps off a = Inr r"
  shows "\<exists>F P i. translateLegacyProps a ps ([], [], 1 + off) = Inr (F, P, i)
            \<and> sql r = (if length F > 0 then '' AND '' @ join '' AND '' F else [])
            \<and> params r = P"
  using assms unfolding translateLegacyFilter_def
  by (auto split: sum.splits)


lemma translateFilter_Inr_params_built:
  assumes "translateFilter f off a = Inr r"
  shows "params r = values_of f \<and> built_from_allow_list a (sql r)"
proof (cases f)
  case None
  with assms show ?thesis by (auto simp: built_Nil)
next
  case (Some obj)
  show ?thesis
  proof (cases obj)
    case (DSLObject dsl ks)
    with Some assms have n: "translateNewDSL dsl off = Inr r"
      by (auto simp: Let_def split: if_splits)
    from translateNewDSL_Inr [OF n] have "params r = concat (map cond_params (conditions dsl))"
      by (cases "conditions dsl") auto
    with translateNewDSL_built [OF n] Some DSLObject show ?thesis by simp
  next
    case (LegacyObject ps)
    with Some assms have l: "translateLegacyFilter ps off a = Inr r" by simp
    from translateLegacyFilter_Inr [OF l] obtain F P i
      where run: "translateLegacyProps a ps ([], [], 1 + off) = Inr (F, P, i)"
        and s: "sql r = (if length F > 0 then '' AND '' @ join '' AND '' F else [])"
        and p: "params r = P"
      by blast
    from translateLegacyProps_params [OF run] p have pv: "params r = concat (map prop_values ps)"
      by simp
    have F: "list_all (built_from_allow_list a) F"
      using run by (rule translateLegacyProps_built) simp
    have AND: "built_from_allow_list a '' AND ''"
      by (simp add: built_token sql_token_ops)
    have "built_from_allow_list a ('' AND '' @ join '' AND '' F)"
      by (intro built_append AND built_join F)
    with s have "built_from_allow_list a (sql r)"
      by (simp add: built_Nil)
    with pv Some LegacyObject show ?thesis by simp
  qed
qed

lemma translateFilter_structure:
  assumes r: "translateFilter f off a = Inr r"
    and r': "translateFilter f' off a = Inr r'"
    and st: "structure_of f = structure_of f'"
  shows "sql r = sql r'"
proof (cases f)
  case None
  with st have "f' = None" by (cases f' rule: structure_of.cases) simp_all
  with None r r' show ?thesis by simp
next
  case (Some obj)
  show ?thesis
  proof (cases obj)
    case (DSLObject dsl ks)
    with Some st obtain dsl' ks' where f': "f' = Some (DSLObject dsl' ks')"
      and cs: "map cond_structure (conditions dsl) = map cond_structure (conditions dsl')"
      and cb: "combine dsl = combine dsl'"
      by (cases f' rule: structure_of.cases) simp_all
    from r Some DSLObject have n: "translateNewDSL dsl off = Inr r"
      by (auto simp: Let_def split: if_splits)
    from r' f' have n': "translateNewDSL dsl' off = Inr r'"
      by (auto simp: Let_def split: if_splits)
    from n n' cs cb show ?thesis by (rule translateNewDSL_structure)
  next
    case (LegacyObject ps)
    with Some st obtain ps' where f': "f' = Some (LegacyObject ps')"
      and pst: "map prop_structure ps = map prop_structure ps'"
      by (cases f' rule: structure_of.cases) simp_all
    from r Some LegacyObject have l: "translateLegacyFilter ps off a = Inr r" by simp
    from r' f' have l': "translateLegacyFilter ps' off a = Inr r'" by simp
    from translateLegacyFilter_Inr [OF l] obtain F P i
      where run: "translateLegacyProps a ps ([], [], 1 + off) = Inr (F, P, i)"
        and s: "sql r = (if length F > 0 then '' AND '' @ join '' AND '' F else [])"
      by blast
    from translateLegacyFilter_Inr [OF l'] obtain F' P' i'
      where run': "translateLegacyProps a ps' ([], [], 1 + off) = Inr (F', P', i')"
        and s': "sql r' = (if length F' > 0 then '' AND '' @ join '' AND '' F' else [])"
      by blast
    from translateLegacyProps_structure [OF run run' pst] have "F = F'" by simp
    with s s' show ?thesis by simp
  qed
qed

section \<open>The claims\<close>

subsection \<open>Injection safety\<close>

text \<open>
  Claim C1. Let two filters of the same structure (same fields, operators and value
  arities; for a legacy filter the same keys) both compile, at the same parameter offset
  and table alias. Then the emitted SQL text is identical, and the parameter list of each
  is the list of its values, in order. Moreover the SQL text is a concatenation of
  allow-listed pieces only: fixed operator texts, positional placeholders \<open>$N\<close>, and
  allow-listed columns qualified by their fixed alias \<open>c\<close> or \<open>d\<close> (in the legacy
  path by the \<open>tableAlias\<close> argument, which is not part of the filter object).
\<close>

theorem translateFilter_injection_safe:
  assumes "translateFilter f off a = Inr r"
    and "translateFilter f' off a = Inr r'"
    and "structure_of f = structure_of f'"
  shows "sql r = sql r' \<and> params r = values_of f \<and> params r' = values_of f'
       \<and> built_from_allow_list a (sql r)"
  using translateFilter_structure [OF assms]
    translateFilter_Inr_params_built [OF assms(1)]
    translateFilter_Inr_params_built [OF assms(2)]
  by simp

text \<open>
  Claim C1 at two filters of the same structure, one of them carrying SQL text as values:
  both compile to the same fragment, and the values are parameters only.
\<close>

theorem translateFilter_injection_safe_witness:
  "translateFilter (Some benign_filter) 0 ''c''
     = Inr \<lparr>sql = '' AND (c.path LIKE $1 || '' @ squote @ ''%'' @ squote
                      @ '' OR c.lang IN ($2, $3))'',
            params = [JStr ''src/'', JStr ''ts'', JStr ''js'']\<rparr>
   \<and> translateFilter (Some hostile_filter) 0 ''c''
     = Inr \<lparr>sql = '' AND (c.path LIKE $1 || '' @ squote @ ''%'' @ squote
                      @ '' OR c.lang IN ($2, $3))'',
            params = [JStr ''x; DROP TABLE chunks; --'', JStr ''1) OR (1 = 1'', JNull]\<rparr>
   \<and> structure_of (Some benign_filter) = structure_of (Some hostile_filter)
   \<and> values_of (Some hostile_filter)
       = [JStr ''x; DROP TABLE chunks; --'', JStr ''1) OR (1 = 1'', JNull]
   \<and> built_from_allow_list ''c''
       ('' AND (c.path LIKE $1 || '' @ squote @ ''%'' @ squote @ '' OR c.lang IN ($2, $3))'')"
proof -
  let ?sql = "'' AND (c.path LIKE $1 || '' @ squote @ ''%'' @ squote
                      @ '' OR c.lang IN ($2, $3))''"
  have b: "translateFilter (Some benign_filter) 0 ''c''
             = Inr \<lparr>sql = ?sql, params = [JStr ''src/'', JStr ''ts'', JStr ''js'']\<rparr>"
    by code_simp
  have h: "translateFilter (Some hostile_filter) 0 ''c''
             = Inr \<lparr>sql = ?sql,
                    params = [JStr ''x; DROP TABLE chunks; --'', JStr ''1) OR (1 = 1'', JNull]\<rparr>"
    by code_simp
  have s: "structure_of (Some benign_filter) = structure_of (Some hostile_filter)"
    by code_simp
  from translateFilter_injection_safe [OF b h s] b h s show ?thesis by simp
qed

subsection \<open>Rejected filters\<close>

text \<open>
  Claim C2, as stated, fails for an \<open>in\<close> condition without a \<open>values\<close> property:
  \<open>{conditions: [{field: "lang", op: "in"}]}\<close> is rejected with a
  \<open>FilterValidationError\<close>, although it has none of the listed faults (its values list is
  absent, not empty) and no legacy key.
\<close>

theorem translateFilter_missing_values_counterexample:
  "raises400 (translateFilter (Some (DSLObject missing_values_dsl [''conditions''])) 0 ''c'')
   \<and> \<not> mixed_keys [''conditions'']
   \<and> \<not> listed_fault missing_values_dsl"
  by code_simp

text \<open>
  Claim C2 (amended), for well-typed DSL filter inputs: objects with the key
  \<open>conditions\<close> whose \<open>conditions\<close> is an array of objects with strings \<open>field\<close>
  and \<open>op\<close> and a string or absent \<open>alias\<close>, and whose \<open>combine\<close> is a string,
  \<open>null\<close> or absent. (On other inputs, such as \<open>{conditions: null}\<close>, the source
  throws a \<open>TypeError\<close>; they are not covered.) For every such input,
  \<open>translateFilter\<close> raises a \<open>FilterValidationError\<close> carrying status 400 exactly when
  the object has a key besides \<open>conditions\<close> and \<open>combine\<close>, or \<open>combine\<close> is a
  string other than \<open>"and"\<close>/\<open>"or"\<close> (an absent or \<open>null\<close> \<open>combine\<close> is read as
  \<open>"and"\<close>), or some condition has an unknown field, an operator not in the field's
  allowed set, an alias differing from the field's fixed alias, an \<open>in\<close>/\<open>notIn\<close>
  condition whose \<open>values\<close> is absent, not an array or empty, a
  \<open>between\<close>/\<open>notBetween\<close> range missing \<open>range.low\<close> or \<open>range.high\<close>, or an
  unknown operator.
\<close>

theorem translateFilter_dsl_rejects:
  "raises400 (translateFilter (Some (DSLObject dsl ks)) off a)
     \<longleftrightarrow> mixed_keys ks \<or> dsl_fault dsl"
proof (cases "mixed_keys ks")
  case True
  then show ?thesis
    using filter_extra_keys [of ks] by (simp add: raises400_def Let_def)
next
  case False
  then have eq: "translateFilter (Some (DSLObject dsl ks)) off a = translateNewDSL dsl off"
    using filter_extra_keys [of ks] by (simp add: Let_def)
  show ?thesis
  proof (cases "translateNewDSL dsl off")
    case (Inl e)
    then have "dsl_fault dsl" using translateNewDSL_fault_iff [of dsl off] by blast
    moreover have "isFilterValidationError e" using Inl by (rule translateNewDSL_Inl_FVE)
    ultimately show ?thesis
      using Inl eq by (simp add: raises400_def statusCode_FVE)
  next
    case (Inr r)
    then have "\<not> dsl_fault dsl" using translateNewDSL_fault_iff [of dsl off] by auto
    then show ?thesis
      using Inr eq False by (simp add: raises400_def)
  qed
qed

text \<open>
  The amended claim C2 at a filter with a wrong alias, which is rejected, at a filter
  without fault, which is not, and at an object that mixes \<open>conditions\<close> with the legacy
  key \<open>docType\<close>, which is rejected.
\<close>

theorem translateFilter_dsl_rejects_witness:
  "dsl_fault wrong_alias_dsl
   \<and> raises400
        (translateFilter (Some (DSLObject wrong_alias_dsl [''conditions'', ''combine''])) 0 ''c'')
   \<and> \<not> mixed_keys [''conditions'', ''combine'']
   \<and> \<not> dsl_fault example_dsl
   \<and> \<not> raises400
          (translateFilter (Some (DSLObject example_dsl [''conditions'', ''combine''])) 0 ''c'')
   \<and> mixed_keys [''conditions'', ''docType'']
   \<and> raises400
        (translateFilter (Some (DSLObject example_dsl [''conditions'', ''docType''])) 0 ''c'')"
proof -
  have f: "dsl_fault wrong_alias_dsl"
    by code_simp
  have g: "\<not> mixed_keys [''conditions'', ''combine''] \<and> \<not> dsl_fault example_dsl"
    by code_simp
  have m: "mixed_keys [''conditions'', ''docType'']"
    by code_simp
  from translateFilter_dsl_rejects
         [of wrong_alias_dsl "[''conditions'', ''combine'']" 0 "''c''"]
       translateFilter_dsl_rejects
         [of example_dsl "[''conditions'', ''combine'']" 0 "''c''"]
       translateFilter_dsl_rejects
         [of example_dsl "[''conditions'', ''docType'']" 0 "''c''"] f g m
  show ?thesis by blast
qed

subsection \<open>The form of the emitted fragment\<close>




end
